theory Spec2Isabelle
  imports Complex_Main "HOL-Library.Word" "HOL-Library.Monad_Syntax"
begin

section \<open>Numbers and typed-array samples\<close>

text \<open>
  The recording worker (class \<open>RecordWorker\<close>) receives frames that are
  \<open>Float32Array\<close>s (\<open>getChannelData(0)\<close>). Read from the array, an element is a
  JavaScript Number: a finite binary fraction, an infinity, or NaN. Finite values are
  modelled by the rational they denote. Every operation that the worker applies to a
  sample (\<open>Math.min\<close>, \<open>Math.max\<close>, the multiplication of a clamped single-precision
  value by \<open>0x7FFF\<close>, and the integer conversion of \<open>setInt16\<close>) is exact on such
  values in double precision (a 24-bit significand times a 15-bit constant fits in 53
  bits), so the rational model computes what the code computes.
\<close>

datatype number = Num rat | PosInf | NegInf | NaN

type_synonym frame = "number list"

text \<open>\<open>Math.min\<close> and \<open>Math.max\<close>: NaN if either argument is NaN.\<close>

fun Math_min :: "number \<Rightarrow> number \<Rightarrow> number" where
  "Math_min NaN _ = NaN"
| "Math_min _ NaN = NaN"
| "Math_min NegInf _ = NegInf"
| "Math_min _ NegInf = NegInf"
| "Math_min PosInf y = y"
| "Math_min x PosInf = x"
| "Math_min (Num a) (Num b) = Num (min a b)"

fun Math_max :: "number \<Rightarrow> number \<Rightarrow> number" where
  "Math_max NaN _ = NaN"
| "Math_max _ NaN = NaN"
| "Math_max PosInf _ = PosInf"
| "Math_max _ PosInf = PosInf"
| "Math_max NegInf y = y"
| "Math_max x NegInf = x"
| "Math_max (Num a) (Num b) = Num (max a b)"

text \<open>The product \<open>sample * 0x7FFF\<close>.\<close>

fun times_0x7FFF :: "number \<Rightarrow> number" where
  "times_0x7FFF (Num a) = Num (a * 32767)"
| "times_0x7FFF PosInf = PosInf"
| "times_0x7FFF NegInf = NegInf"
| "times_0x7FFF NaN = NaN"

text \<open>
  The integer conversion that \<open>DataView.setInt16\<close> applies to its value (ECMAScript
  ToInt16): NaN and the infinities give 0; a finite value is truncated,
  \<open>sign(x) * floor(abs(x))\<close>, and reduced modulo \<open>2^16\<close>.
\<close>

definition js_truncate :: "rat \<Rightarrow> int" where
  "js_truncate x = (if x < 0 then - 1 else 1) * \<lfloor>\<bar>x\<bar>\<rfloor>"

fun ToInt16 :: "number \<Rightarrow> 16 word" where
  "ToInt16 (Num a) = word_of_int (js_truncate a)"
| "ToInt16 PosInf = 0"
| "ToInt16 NegInf = 0"
| "ToInt16 NaN = 0"

text \<open>
  Integer-valued quantities (lengths, sizes, the sample rate and the channel count) are
  integers; \<open>None\<close> stands for a value that is not a number: \<open>undefined\<close> (a
  variable of the worker that \<open>init\<close> has not set yet) and the NaN that arithmetic on
  it yields. The conversions of \<open>setUint16\<close> and \<open>setUint32\<close> turn it into 0
  and reduce a number modulo \<open>2^16\<close> and \<open>2^32\<close>.
\<close>

definition times :: "nat option \<Rightarrow> int \<Rightarrow> int option" where
  "times x k = map_option (\<lambda>n. int n * k) x"

definition ToNumber :: "nat option \<Rightarrow> int option" where
  "ToNumber x = map_option int x"

definition ToUint16 :: "int option \<Rightarrow> 16 word" where
  "ToUint16 v = (case v of None \<Rightarrow> 0 | Some i \<Rightarrow> word_of_int i)"

definition ToUint32 :: "int option \<Rightarrow> 32 word" where
  "ToUint32 v = (case v of None \<Rightarrow> 0 | Some i \<Rightarrow> word_of_int i)"

section \<open>ArrayBuffer and DataView\<close>

text \<open>
  A \<open>DataView\<close> over a fresh \<open>ArrayBuffer\<close> is the list of its bytes. A setter
  that would write outside the buffer throws a RangeError, and so does the allocation
  of a buffer of negative length: these are the result \<open>None\<close>.
\<close>

type_synonym byte = "8 word"

definition ArrayBuffer :: "int \<Rightarrow> byte list option" where
  "ArrayBuffer n = (if n < 0 then None else Some (replicate (nat n) 0))"

definition store :: "byte list \<Rightarrow> nat \<Rightarrow> byte list \<Rightarrow> byte list option" where
  "store view byteOffset bs =
     (if byteOffset + length bs \<le> length view
      then Some (take byteOffset view @ bs @ drop (byteOffset + length bs) view)
      else None)"

definition bytes16 :: "16 word \<Rightarrow> bool \<Rightarrow> byte list" where
  "bytes16 w littleEndian =
     (let bs = [ucast w, ucast (drop_bit 8 w)] in if littleEndian then bs else rev bs)"

definition bytes32 :: "32 word \<Rightarrow> bool \<Rightarrow> byte list" where
  "bytes32 w littleEndian =
     (let bs = [ucast w, ucast (drop_bit 8 w), ucast (drop_bit 16 w), ucast (drop_bit 24 w)]
      in if littleEndian then bs else rev bs)"

definition setUint8 :: "byte list \<Rightarrow> nat \<Rightarrow> byte \<Rightarrow> byte list option" where
  "setUint8 view byteOffset v = store view byteOffset [v]"

definition setUint16 :: "byte list \<Rightarrow> nat \<Rightarrow> int option \<Rightarrow> bool \<Rightarrow> byte list option" where
  "setUint16 view byteOffset v littleEndian =
     store view byteOffset (bytes16 (ToUint16 v) littleEndian)"

definition setUint32 :: "byte list \<Rightarrow> nat \<Rightarrow> int option \<Rightarrow> bool \<Rightarrow> byte list option" where
  "setUint32 view byteOffset v littleEndian =
     store view byteOffset (bytes32 (ToUint32 v) littleEndian)"

definition setInt16 :: "byte list \<Rightarrow> nat \<Rightarrow> number \<Rightarrow> bool \<Rightarrow> byte list option" where
  "setInt16 view byteOffset v littleEndian =
     store view byteOffset (bytes16 (ToInt16 v) littleEndian)"

text \<open>
  The matching little-endian getters, used to state what a reader of the file finds in
  a field.
\<close>

definition getUint16 :: "byte list \<Rightarrow> nat \<Rightarrow> nat" where
  "getUint16 view byteOffset =
     unat (view ! byteOffset) + 256 * unat (view ! (byteOffset + 1))"

definition getUint32 :: "byte list \<Rightarrow> nat \<Rightarrow> nat" where
  "getUint32 view byteOffset =
     unat (view ! byteOffset) + 256 * unat (view ! (byteOffset + 1))
       + 65536 * unat (view ! (byteOffset + 2)) + 16777216 * unat (view ! (byteOffset + 3))"

definition getInt16 :: "byte list \<Rightarrow> nat \<Rightarrow> int" where
  "getInt16 view byteOffset =
     (let u = int (getUint16 view byteOffset) in if u < 32768 then u else u - 65536)"

section \<open>The recording worker\<close>

text \<open>The variables of the worker's closure: \<open>recLength\<close>, \<open>recBuffers\<close>,
  \<open>sampleRate\<close> and \<open>numChannels\<close>.\<close>

record worker =
  recLength :: int
  recBuffers :: "frame list"
  sampleRate :: "nat option"
  numChannels :: "nat option"

definition worker_init :: worker where
  "worker_init = \<lparr>recLength = 0, recBuffers = [], sampleRate = None, numChannels = None\<rparr>"

subsection \<open>Encoding\<close>

fun frameTo16BitPCM :: "byte list \<Rightarrow> nat \<Rightarrow> frame \<Rightarrow> (byte list \<times> nat) option" where
  "frameTo16BitPCM output offset [] = Some (output, offset)"
| "frameTo16BitPCM output offset (x # xs) =
     (let sample = Math_max (Num (- 1)) (Math_min (Num 1) x) in
      do {
        output \<leftarrow> setInt16 output offset (times_0x7FFF sample) True;
        frameTo16BitPCM output (offset + 2) xs
      })"

fun buffersTo16BitPCM :: "byte list \<Rightarrow> nat \<Rightarrow> frame list \<Rightarrow> byte list option" where
  "buffersTo16BitPCM output offset [] = Some output"
| "buffersTo16BitPCM output offset (f # fs) =
     do {
       (output, offset) \<leftarrow> frameTo16BitPCM output offset f;
       buffersTo16BitPCM output offset fs
     }"

fun writeString :: "byte list \<Rightarrow> nat \<Rightarrow> string \<Rightarrow> byte list option" where
  "writeString view offset [] = Some view"
| "writeString view offset (c # cs) =
     do {
       view \<leftarrow> setUint8 view offset (of_char c);
       writeString view (offset + 1) cs
     }"

definition encodeWav :: "worker \<Rightarrow> frame list \<Rightarrow> int \<Rightarrow> byte list option" where
  "encodeWav w recBuffers' recLength' =
     do {
       view \<leftarrow> ArrayBuffer (44 + recLength' * 2);
       view \<leftarrow> writeString view 0 ''RIFF'';
       view \<leftarrow> setUint32 view 4 (Some (36 + recLength' * 2)) True;
       view \<leftarrow> writeString view 8 ''WAVE'';
       view \<leftarrow> writeString view 12 ''fmt '';
       view \<leftarrow> setUint32 view 16 (Some 16) True;
       view \<leftarrow> setUint16 view 20 (Some 1) True;
       view \<leftarrow> setUint16 view 22 (ToNumber (numChannels w)) True;
       view \<leftarrow> setUint32 view 24 (ToNumber (sampleRate w)) True;
       view \<leftarrow> setUint32 view 28 (times (sampleRate w) 4) True;
       view \<leftarrow> setUint16 view 32 (times (numChannels w) 2) True;
       view \<leftarrow> setUint16 view 34 (Some 16) True;
       view \<leftarrow> writeString view 36 ''data'';
       view \<leftarrow> setUint32 view 40 (Some (recLength' * 2)) True;
       buffersTo16BitPCM view 44 recBuffers'
     }"

subsection \<open>Messages and handlers\<close>

text \<open>
  A message to the worker is the object \<open>event.data\<close>: its \<open>command\<close> tag and
  the payload property that the command's handler reads (\<open>config\<close>, \<open>buffer\<close> or
  \<open>type\<close>). A handler reads no other property, so the value a message carries in the
  others is immaterial. The worker answers with objects \<open>{command, data}\<close>, where
  \<open>data\<close> is a \<open>Blob\<close>: the encoded bytes and a media type.
\<close>

record config =
  config_sampleRate :: nat
  config_numChannels :: nat

record message =
  command :: string
  config :: config
  buffer :: frame
  type :: string

datatype blob = Blob "byte list" string

record reply =
  reply_command :: string
  data :: blob

definition init :: "worker \<Rightarrow> config \<Rightarrow> worker" where
  "init w cfg = w\<lparr>sampleRate := Some (config_sampleRate cfg),
                   numChannels := Some (config_numChannels cfg)\<rparr>"

definition record' :: "worker \<Rightarrow> frame \<Rightarrow> worker" where
  "record' w inputBuffer =
     w\<lparr>recBuffers := recBuffers w @ [inputBuffer],
        recLength := recLength w + int (length inputBuffer)\<rparr>"

text \<open>
  \<open>exportWav\<close> returns the worker's variables and the messages it posts. When
  \<open>encodeWav\<close> throws, the exception leaves the handler: nothing is posted.
\<close>

definition exportWav :: "worker \<Rightarrow> string \<Rightarrow> worker \<times> reply list" where
  "exportWav w type' =
     (case encodeWav w (recBuffers w) (recLength w) of
        None \<Rightarrow> (w, [])
      | Some dataView \<Rightarrow>
          (w, [\<lparr>reply_command = ''exportWav'', data = Blob dataView type'\<rparr>]))"

definition clear :: "worker \<Rightarrow> worker" where
  "clear w = w\<lparr>recLength := 0, recBuffers := []\<rparr>"

definition onmessage :: "worker \<Rightarrow> message \<Rightarrow> worker \<times> reply list" where
  "onmessage w event =
     (if command event = ''init'' then (init w (config event), [])
      else if command event = ''record'' then (record' w (buffer event), [])
      else if command event = ''exportWav'' then exportWav w (type event)
      else if command event = ''clear'' then (clear w, [])
      else (w, []))"

text \<open>The worker handles the messages it is delivered one after the other.\<close>

fun run_worker :: "worker \<Rightarrow> message list \<Rightarrow> worker \<times> reply list" where
  "run_worker w [] = (w, [])"
| "run_worker w (m # ms) =
     (let (w', out) = onmessage w m; (w'', out') = run_worker w' ms in (w'', out @ out'))"

section \<open>The recording service\<close>

text \<open>
  Class \<open>RecordService\<close>, as far as \<open>stopRecording\<close>, the handler of the worker's
  replies and the audio callback go: the fields they read or write. A node field is
  \<open>True\<close> when it holds a node and \<open>False\<close> when it is \<open>undefined\<close>;
  \<open>audioContext\<close> is \<open>None\<close> when \<open>undefined\<close> and else the state of the
  context. \<open>callbacks\<close> is the array \<open>callbacks.exportWav\<close>. Its elements are
  the closures that \<open>stopRecording\<close> pushes; two of them differ only in the promise
  that they resolve, so a closure is identified by the number of its promise.
\<close>

datatype context_state = Suspended | Running | Closed

record service =
  audioBlob :: "blob option"
  audioContext :: "context_state option"
  resourceNode :: bool
  jsNode :: bool
  callbacks :: "nat list"

text \<open>The service as its constructor leaves it.\<close>

definition service_new :: service where
  "service_new = \<lparr>audioBlob = None, audioContext = None, resourceNode = False, jsNode = False,
     callbacks = []\<rparr>"

definition cmdInit :: string where "cmdInit = ''init''"
definition cmdRecord :: string where "cmdRecord = ''record''"
definition cmdExportWav :: string where "cmdExportWav = ''exportWav''"
definition cmdClear :: string where "cmdClear = ''clear''"

definition mimeType :: string where "mimeType = ''audio/wav''"

text \<open>
  The messages that the service posts. A property that a message does not have is
  never read by the worker; in the model it has a fixed value.
\<close>

definition no_config :: config where
  "no_config = \<lparr>config_sampleRate = 0, config_numChannels = 0\<rparr>"

definition record_message :: "frame \<Rightarrow> message" where
  "record_message f = \<lparr>command = cmdRecord, config = no_config, buffer = f, type = []\<rparr>"

definition exportWav_message :: message where
  "exportWav_message = \<lparr>command = cmdExportWav, config = no_config, buffer = [], type = mimeType\<rparr>"

text \<open>
  What a method of the service does to the outside, in order: the messages it posts to
  the worker, the calls of an export callback with a blob, the calls on the audio nodes
  and the context, the promises it resolves, and a TypeError that ends it.
\<close>

datatype effect =
    PostMessage message
  | Call nat blob
  | Disconnect_jsNode
  | Disconnect_resourceNode
  | Close_audioContext nat
  | Resolve nat
  | Throw_TypeError

text \<open>The handler \<open>jsNode.onaudioprocess\<close>, for the channel data of the event.\<close>

definition onaudioprocess :: "service \<Rightarrow> frame \<Rightarrow> service \<times> effect list" where
  "onaudioprocess svc channelData = (svc, [PostMessage (record_message channelData)])"

text \<open>\<open>stopRecording\<close>, where \<open>k\<close> is the promise that it returns.\<close>

definition stopRecording :: "nat \<Rightarrow> service \<Rightarrow> service \<times> effect list" where
  "stopRecording k svc =
     (svc\<lparr>callbacks := callbacks svc @ [k]\<rparr>, [PostMessage exportWav_message])"

text \<open>
  The closure pushed by \<open>stopRecording\<close>, called with a blob. Reading
  \<open>audioContext.state\<close> of an undefined context throws. \<open>Close_audioContext k\<close> is
  the call \<open>audioContext.close().then(...)\<close>, whose continuation is
  \<open>audioContext_closed\<close>.
\<close>

definition export_callback :: "nat \<Rightarrow> service \<Rightarrow> blob \<Rightarrow> service \<times> effect list" where
  "export_callback k svc blob =
     (let svc' = svc\<lparr>audioBlob := Some blob\<rparr>;
          released = (if jsNode svc then [Disconnect_jsNode] else [])
                   @ (if resourceNode svc then [Disconnect_resourceNode] else [])
      in case audioContext svc of
           None \<Rightarrow> (svc', released @ [Throw_TypeError])
         | Some state \<Rightarrow>
             if state = Running then (svc', released @ [Close_audioContext k])
             else (svc', released @ [Resolve k]))"

definition audioContext_closed :: "nat \<Rightarrow> service \<Rightarrow> service \<times> effect list" where
  "audioContext_closed k svc =
     (svc\<lparr>audioContext := Some Closed, resourceNode := False, jsNode := False\<rparr>, [Resolve k])"

text \<open>
  The handler \<open>worker.onmessage\<close> of the service: it pops the last element of
  \<open>callbacks[event.data.command]\<close> and calls it, if it is a function, with
  \<open>event.data.data\<close>. The object \<open>callbacks\<close> has the one key \<open>exportWav\<close>;
  for another command the lookup is \<open>undefined\<close> and \<open>pop\<close> throws.
\<close>

definition service_onmessage :: "service \<Rightarrow> reply \<Rightarrow> service \<times> effect list" where
  "service_onmessage svc event =
     (if reply_command event = ''exportWav'' then
        (if callbacks svc = [] then (svc, [])
         else
           let callback = last (callbacks svc);
               (svc', effs) = export_callback callback
                                (svc\<lparr>callbacks := butlast (callbacks svc)\<rparr>) (data event)
           in (svc', Call callback (data event) # effs))
      else (svc, [Throw_TypeError]))"


section \<open>The page and the worker together\<close>

text \<open>
  Modelled from the spec: the command channel of section 4.2, which in this repository
  is the platform's \<open>postMessage\<close> and is not part of the sources. A posted message
  joins the end of the receiver's queue; the receiver handles the message at the front
  of its queue, one at a time. When each side takes its turn is left open: a schedule
  is any sequence of events.

  \<open>posted\<close> and \<open>effects\<close> keep all that the worker has posted and the service
  has done so far.
\<close>

record system =
  svc :: service
  wrk :: worker
  to_worker :: "message list"
  to_service :: "reply list"
  posted :: "reply list"
  effects :: "effect list"

datatype event =
    AudioProcess frame
  | StopRecording nat
  | ContextClosed nat
  | WorkerTurn
  | ServiceTurn

fun posts :: "effect list \<Rightarrow> message list" where
  "posts [] = []"
| "posts (PostMessage m # es) = m # posts es"
| "posts (_ # es) = posts es"

fun calls :: "effect list \<Rightarrow> (nat \<times> blob) list" where
  "calls [] = []"
| "calls (Call k b # es) = (k, b) # calls es"
| "calls (_ # es) = calls es"

definition service_does :: "system \<Rightarrow> service \<times> effect list \<Rightarrow> system" where
  "service_does s r =
     s\<lparr>svc := fst r, to_worker := to_worker s @ posts (snd r), effects := effects s @ snd r\<rparr>"

fun step :: "system \<Rightarrow> event \<Rightarrow> system" where
  "step s (AudioProcess f) = service_does s (onaudioprocess (svc s) f)"
| "step s (StopRecording k) = service_does s (stopRecording k (svc s))"
| "step s (ContextClosed k) = service_does s (audioContext_closed k (svc s))"
| "step s WorkerTurn =
     (case to_worker s of
        [] \<Rightarrow> s
      | m # ms \<Rightarrow>
          let (w, out) = onmessage (wrk s) m
          in s\<lparr>wrk := w, to_worker := ms, to_service := to_service s @ out,
               posted := posted s @ out\<rparr>)"
| "step s ServiceTurn =
     (case to_service s of
        [] \<Rightarrow> s
      | r # rs \<Rightarrow> service_does (s\<lparr>to_service := rs\<rparr>) (service_onmessage (svc s) r))"

fun exec :: "system \<Rightarrow> event list \<Rightarrow> system" where
  "exec s [] = s"
| "exec s (e # es) = exec (step s e) es"

definition is_call :: "event \<Rightarrow> bool" where
  "is_call e = (case e of AudioProcess _ \<Rightarrow> True | StopRecording _ \<Rightarrow> True | _ \<Rightarrow> False)"

text \<open>A fresh service and a fresh worker, with nothing under way.\<close>

definition system_new :: system where
  "system_new = \<lparr>svc = service_new, wrk = worker_init, to_worker = [], to_service = [],
     posted = [], effects = []\<rparr>"


section \<open>Notions used in the statements\<close>

text \<open>
  The 16-bit value that \<open>buffersTo16BitPCM\<close> computes for one sample, the bytes it
  writes for a sequence of frames, the number of samples in a sequence of frames, and
  the 44 bytes that \<open>encodeWav\<close> writes in front of them.
\<close>

definition sample16 :: "number \<Rightarrow> 16 word" where
  "sample16 x = ToInt16 (times_0x7FFF (Math_max (Num (- 1)) (Math_min (Num 1) x)))"

definition totalSampleCount :: "frame list \<Rightarrow> nat" where
  "totalSampleCount fs = sum_list (map length fs)"

definition pcm16 :: "frame list \<Rightarrow> byte list" where
  "pcm16 fs = concat (map (\<lambda>x. bytes16 (sample16 x) True) (concat fs))"

text \<open>
  The conversion as the specification words it: clamp to \<open>[-1, 1]\<close>, multiply by
  32767, round toward zero.
\<close>

definition clamp :: "rat \<Rightarrow> rat" where
  "clamp s = (if s < - 1 then - 1 else if 1 < s then 1 else s)"

definition round_toward_zero :: "rat \<Rightarrow> int" where
  "round_toward_zero x = (if 0 \<le> x then \<lfloor>x\<rfloor> else \<lceil>x\<rceil>)"

definition wav_header :: "worker \<Rightarrow> int \<Rightarrow> byte list" where
  "wav_header w n =
     map of_char ''RIFF'' @ bytes32 (ToUint32 (Some (36 + n * 2))) True @ map of_char ''WAVEfmt ''
     @ bytes32 16 True @ bytes16 1 True @ bytes16 (ToUint16 (ToNumber (numChannels w))) True
     @ bytes32 (ToUint32 (ToNumber (sampleRate w))) True
     @ bytes32 (ToUint32 (times (sampleRate w) 4)) True
     @ bytes16 (ToUint16 (times (numChannels w) 2)) True
     @ bytes16 16 True @ map of_char ''data'' @ bytes32 (ToUint32 (Some (n * 2))) True"

text \<open>The signed value of the 16-bit word written for a sample.\<close>

definition written_value :: "number \<Rightarrow> int" where
  "written_value x =
     (case x of Num s \<Rightarrow> round_toward_zero (clamp s * 32767)
      | PosInf \<Rightarrow> 32767 | NegInf \<Rightarrow> - 32767 | NaN \<Rightarrow> 0)"

text \<open>The accumulator's invariant: the running count is the number of samples held.\<close>

definition accumulator_ok :: "worker \<Rightarrow> bool" where
  "accumulator_ok w \<longleftrightarrow> recLength w = int (totalSampleCount (recBuffers w)) \<and> 0 \<le> recLength w"

text \<open>
  The worker after \<open>init\<close> with 8000 Hz and one channel and two \<open>record\<close>
  commands, with the frames \<open>[0.5, -0.5]\<close> and \<open>[1.0, -1.0]\<close>.
\<close>

definition scenario_worker :: worker where
  "scenario_worker = \<lparr>recLength = 4, recBuffers = [[Num (1/2), Num (- 1/2)], [Num 1, Num (- 1)]],
      sampleRate = Some 8000, numChannels = Some 1\<rparr>"

text \<open>The messages that the calls of a schedule post, in order.\<close>

fun sent :: "event list \<Rightarrow> message list" where
  "sent [] = []"
| "sent (AudioProcess f # es) = record_message f # sent es"
| "sent (StopRecording k # es) = exportWav_message # sent es"
| "sent (_ # es) = sent es"

text \<open>
  The worker's variables and all its replies once it has handled what is in its queue.
\<close>

definition settled :: "system \<Rightarrow> worker \<times> reply list" where
  "settled s = (let (w, out) = run_worker (wrk s) (to_worker s) in (w, posted s @ out))"

text \<open>
  Two frames and a stop, with the worker and the service taking turns in between.
\<close>

definition jitter_schedule :: "event list" where
  "jitter_schedule = [AudioProcess [Num 1], WorkerTurn, ServiceTurn, AudioProcess [Num (- 1)],
     StopRecording 0, WorkerTurn, WorkerTurn]"


section \<open>The bytes that the encoder produces\<close>

lemma store_middle:
  "length pre = off \<Longrightarrow> length old = length bs \<Longrightarrow>
   store (pre @ old @ post) off bs = Some (pre @ bs @ post)"
  by (simp add: store_def)

lemma length_bytes16 [simp]: "length (bytes16 w le) = 2"
  by (simp add: bytes16_def Let_def)

lemma length_bytes32 [simp]: "length (bytes32 w le) = 4"
  by (simp add: bytes32_def Let_def)

lemma length_wav_header [simp]: "length (wav_header w n) = 44"
  by (simp add: wav_header_def)

lemma length_pcm_frame: "length (concat (map (\<lambda>x. bytes16 (sample16 x) True) f)) = 2 * length f"
  by (induction f) simp_all

lemma length_pcm16 [simp]: "length (pcm16 fs) = 2 * totalSampleCount fs"
  by (induction fs) (simp_all add: pcm16_def totalSampleCount_def length_pcm_frame)

lemma frameTo16BitPCM_middle:
  "length pre = off \<Longrightarrow> length old = 2 * length f \<Longrightarrow>
   frameTo16BitPCM (pre @ old @ post) off f =
     Some (pre @ concat (map (\<lambda>x. bytes16 (sample16 x) True) f) @ post, off + 2 * length f)"
proof (induction f arbitrary: pre old off)
  case Nil
  then show ?case by simp
next
  case (Cons x xs)
  from Cons.prems obtain a b old' where old: "old = a # b # old'" and len: "length old' = 2 * length xs"
    by (cases old; cases "tl old") auto
  let ?bs = "bytes16 (sample16 x) True"
  have st: "setInt16 (pre @ old @ post) off (times_0x7FFF (Math_max (Num (- 1)) (Math_min (Num 1) x))) True
        = Some (pre @ ?bs @ (old' @ post))"
    using store_middle [of pre off "[a, b]" ?bs "old' @ post"] Cons.prems(1)
    by (simp add: setInt16_def old sample16_def)
  have "frameTo16BitPCM ((pre @ ?bs) @ old' @ post) (off + 2) xs =
     Some ((pre @ ?bs) @ concat (map (\<lambda>x. bytes16 (sample16 x) True) xs) @ post, (off + 2) + 2 * length xs)"
    by (rule Cons.IH) (use Cons.prems(1) len in simp_all)
  with st show ?case by simp
qed

lemma buffersTo16BitPCM_middle:
  "length pre = off \<Longrightarrow> length old = 2 * totalSampleCount fs \<Longrightarrow>
   buffersTo16BitPCM (pre @ old @ post) off fs = Some (pre @ pcm16 fs @ post)"
proof (induction fs arbitrary: pre old off)
  case Nil
  then show ?case by (simp add: totalSampleCount_def pcm16_def)
next
  case (Cons f fs)
  let ?bs = "concat (map (\<lambda>x. bytes16 (sample16 x) True) f)"
  have lbs: "length ?bs = 2 * length f"
    by (rule length_pcm_frame)
  from Cons.prems(2) have lo: "length old = 2 * length f + 2 * totalSampleCount fs"
    by (simp add: totalSampleCount_def)
  define o1 where "o1 = take (2 * length f) old"
  define o2 where "o2 = drop (2 * length f) old"
  have old: "old = o1 @ o2" and l1: "length o1 = 2 * length f" and l2: "length o2 = 2 * totalSampleCount fs"
    using lo by (simp_all add: o1_def o2_def)
  have fr: "frameTo16BitPCM (pre @ old @ post) off f = Some (pre @ ?bs @ (o2 @ post), off + 2 * length f)"
    using frameTo16BitPCM_middle [of pre off o1 f "o2 @ post"] Cons.prems(1) l1 by (simp add: old)
  have "buffersTo16BitPCM ((pre @ ?bs) @ o2 @ post) (off + 2 * length f) fs =
     Some ((pre @ ?bs) @ pcm16 fs @ post)"
    by (rule Cons.IH) (use Cons.prems(1) l2 lbs in simp_all)
  with fr show ?case by (simp add: pcm16_def)
qed

lemma zeros44: "replicate 44 (0::byte) = [0,0,0,0,0,0,0,0,0,0,0,0,0,0,0,0,0,0,0,0,0,0,0,0,0,0,0,0,0,0,0,0,0,0,0,0,0,0,0,0,0,0,0,0]"
  by (simp add: numeral_eq_Suc)

lemma header_chain:
  "do {
       view \<leftarrow> Some (replicate 44 0 @ Z);
       view \<leftarrow> writeString view 0 ''RIFF'';
       view \<leftarrow> setUint32 view 4 (Some (36 + n * 2)) True;
       view \<leftarrow> writeString view 8 ''WAVE'';
       view \<leftarrow> writeString view 12 ''fmt '';
       view \<leftarrow> setUint32 view 16 (Some 16) True;
       view \<leftarrow> setUint16 view 20 (Some 1) True;
       view \<leftarrow> setUint16 view 22 (ToNumber (numChannels w)) True;
       view \<leftarrow> setUint32 view 24 (ToNumber (sampleRate w)) True;
       view \<leftarrow> setUint32 view 28 (times (sampleRate w) 4) True;
       view \<leftarrow> setUint16 view 32 (times (numChannels w) 2) True;
       view \<leftarrow> setUint16 view 34 (Some 16) True;
       view \<leftarrow> writeString view 36 ''data'';
       view \<leftarrow> setUint32 view 40 (Some (n * 2)) True;
       f view
     } = f (wav_header w n @ Z)"
  by (simp add: zeros44 wav_header_def setUint8_def setUint16_def setUint32_def store_def
      bytes16_def bytes32_def Let_def ToUint16_def ToUint32_def)

lemma ArrayBuffer_split:
  "0 \<le> n \<Longrightarrow> ArrayBuffer (44 + n * 2) = Some (replicate 44 0 @ replicate (2 * nat n) 0)"
  by (simp add: ArrayBuffer_def nat_add_distrib nat_mult_distrib replicate_add [symmetric] mult.commute)

text \<open>What \<open>encodeWav\<close> returns, for a length that is at least the number of samples.\<close>

lemma encodeWav_eq:
  assumes "int (totalSampleCount fs) \<le> n"
  shows "encodeWav w fs n =
     Some (wav_header w n @ pcm16 fs @ replicate (2 * (nat n - totalSampleCount fs)) 0)"
proof -
  have n0: "0 \<le> n" using assms by simp
  define Z1 :: "byte list" where "Z1 = replicate (2 * totalSampleCount fs) 0"
  define Z2 :: "byte list" where "Z2 = replicate (2 * (nat n - totalSampleCount fs)) 0"
  have "2 * nat n = 2 * totalSampleCount fs + 2 * (nat n - totalSampleCount fs)"
    using assms by simp
  then have Z: "replicate (2 * nat n) (0::byte) = Z1 @ Z2"
    unfolding Z1_def Z2_def by (simp only: replicate_add)
  have "encodeWav w fs n = buffersTo16BitPCM (wav_header w n @ Z1 @ Z2) 44 fs"
    unfolding encodeWav_def ArrayBuffer_split [OF n0] Z
    by (rule header_chain)
  also have "\<dots> = Some (wav_header w n @ pcm16 fs @ Z2)"
    by (rule buffersTo16BitPCM_middle) (simp_all add: Z1_def)
  finally show ?thesis by (simp add: Z2_def)
qed

lemma encodeWav_total:
  "encodeWav w fs (int (totalSampleCount fs)) = Some (wav_header w (int (totalSampleCount fs)) @ pcm16 fs)"
  using encodeWav_eq [of fs "int (totalSampleCount fs)" w] by simp

subsection \<open>Reading fields back\<close>

lemma unat_byte0: "unat (ucast (w :: 'a::len word) :: 8 word) = unat w mod 256"
  by (simp add: unsigned_ucast_eq take_bit_eq_mod)

lemma unat_byte_k: "unat (ucast (drop_bit k (w :: 'a::len word)) :: 8 word) = unat w div 2 ^ k mod 256"
  by (simp only: unsigned_ucast_eq unat_drop_bit_eq) (simp add: take_bit_eq_mod drop_bit_eq_div)

lemma unat32_bound: "unat (w :: 32 word) < 4294967296"
  using unsigned_less [of w, where ?'a = nat] by simp

lemma unat16_bound: "unat (w :: 16 word) < 65536"
  using unsigned_less [of w, where ?'a = nat] by simp

lemma le16_arith: "n < 65536 \<Longrightarrow> n mod 256 + 256 * (n div 256 mod 256) = (n::nat)"
proof -
  assume "n < 65536"
  then have "n div 256 < 256" by simp
  then have "n div 256 mod 256 = n div 256" by simp
  then show ?thesis by simp
qed

lemma le32_arith:
  "n < 4294967296 \<Longrightarrow>
   n mod 256 + 256 * (n div 256 mod 256) + 65536 * (n div 65536 mod 256)
     + 16777216 * (n div 16777216 mod 256) = (n::nat)"
proof -
  assume n: "n < 4294967296"
  have a: "n div 16777216 mod 256 = n div 16777216" using n by simp
  have b: "n div 65536 = n div 256 div 256" by (simp add: div_mult2_eq)
  have c: "n div 16777216 = n div 256 div 256 div 256" by (simp add: div_mult2_eq)
  show ?thesis unfolding a unfolding b c
    using mult_div_mod_eq [of 256 n] mult_div_mod_eq [of 256 "n div 256"]
      mult_div_mod_eq [of 256 "n div 256 div 256"]
    by linarith
qed

lemma getUint32_bytes32:
  "length pre = off \<Longrightarrow> getUint32 (pre @ bytes32 w True @ post) off = unat w"
proof -
  assume "length pre = off"
  then have nth: "\<And>k. (pre @ bytes32 w True @ post) ! (off + k) = (bytes32 w True @ post) ! k"
    by (simp add: nth_append)
  have "getUint32 (pre @ bytes32 w True @ post) off =
      unat w mod 256 + 256 * (unat w div 256 mod 256) + 65536 * (unat w div 65536 mod 256)
        + 16777216 * (unat w div 16777216 mod 256)"
    unfolding getUint32_def nth nth [of 0, simplified]
    using unat_byte_k [of 8 w] unat_byte_k [of 16 w] unat_byte_k [of 24 w]
    by (simp add: bytes32_def unat_byte0)
  then show ?thesis
    by (simp only: le32_arith [OF unat32_bound])
qed

lemma getUint16_bytes16:
  "length pre = off \<Longrightarrow> getUint16 (pre @ bytes16 w True @ post) off = unat w"
proof -
  assume "length pre = off"
  then have nth: "\<And>k. (pre @ bytes16 w True @ post) ! (off + k) = (bytes16 w True @ post) ! k"
    by (simp add: nth_append)
  have "getUint16 (pre @ bytes16 w True @ post) off =
      unat w mod 256 + 256 * (unat w div 256 mod 256)"
    unfolding getUint16_def nth nth [of 0, simplified]
    using unat_byte_k [of 8 w]
    by (simp add: bytes16_def unat_byte0)
  then show ?thesis
    by (simp only: le16_arith [OF unat16_bound])
qed

lemma wav_header_split:
  "\<exists>pre. length pre = 40 \<and> wav_header w n = pre @ bytes32 (ToUint32 (Some (n * 2))) True"
  unfolding wav_header_def
  by (rule exI [of _ "map of_char ''RIFF'' @ bytes32 (ToUint32 (Some (36 + n * 2))) True @ map of_char ''WAVEfmt ''
     @ bytes32 16 True @ bytes16 1 True @ bytes16 (ToUint16 (ToNumber (numChannels w))) True
     @ bytes32 (ToUint32 (ToNumber (sampleRate w))) True
     @ bytes32 (ToUint32 (times (sampleRate w) 4)) True
     @ bytes16 (ToUint16 (times (numChannels w) 2)) True
     @ bytes16 16 True @ map of_char ''data''"]) simp

lemma getUint32_header_40:
  "getUint32 (wav_header w n @ rest) 40 = unat (ToUint32 (Some (n * 2)))"
proof -
  obtain pre where "length pre = 40" and "wav_header w n = pre @ bytes32 (ToUint32 (Some (n * 2))) True"
    using wav_header_split by blast
  then show ?thesis
    using getUint32_bytes32 [of pre 40 _ rest] by simp
qed

lemma unat_ToUint32_nat: "unat (ToUint32 (Some (int m))) = m mod 2 ^ 32"
  by (simp add: ToUint32_def unat_of_nat)

lemma encodeWav_size_field:
  "getUint32 (wav_header w (int N) @ rest) 40 = (N * 2) mod 2 ^ 32"
proof -
  have "int N * 2 = int (N * 2)" by simp
  then show ?thesis
    by (simp only: getUint32_header_40 unat_ToUint32_nat)
qed

lemma getUint32_at:
  "xs = pre @ bytes32 v True @ post \<Longrightarrow> length pre = off \<Longrightarrow> getUint32 xs off = unat v"
  by (simp add: getUint32_bytes32)

lemma getUint16_at:
  "xs = pre @ bytes16 v True @ post \<Longrightarrow> length pre = off \<Longrightarrow> getUint16 xs off = unat v"
  by (simp add: getUint16_bytes16)

lemma unat_ToUint16_ToNumber:
  "unat (ToUint16 (ToNumber x)) = (case x of None \<Rightarrow> 0 | Some c \<Rightarrow> c mod 2 ^ 16)"
  by (cases x) (simp_all add: ToUint16_def ToNumber_def unat_of_nat)

lemma unat_ToUint32_ToNumber:
  "unat (ToUint32 (ToNumber x)) = (case x of None \<Rightarrow> 0 | Some r \<Rightarrow> r mod 2 ^ 32)"
  by (cases x) (simp_all add: ToUint32_def ToNumber_def unat_of_nat)

lemma unat_ToUint16_times2:
  "unat (ToUint16 (times x 2)) = (case x of None \<Rightarrow> 0 | Some c \<Rightarrow> (c * 2) mod 2 ^ 16)"
proof (cases x)
  case None
  then show ?thesis by (simp add: ToUint16_def times_def)
next
  case (Some c)
  have "int c * 2 = int (c * 2)" by simp
  then have "unat (word_of_int (int c * 2) :: 16 word) = (c * 2) mod 2 ^ 16"
    by (simp only: of_int_of_nat_eq unat_of_nat) simp
  with Some show ?thesis by (simp add: ToUint16_def times_def)
qed

text \<open>The fields of the header, the byte rate at offset 28 apart.\<close>

lemma wav_header_fields:
  fixes w :: worker and N :: nat and rest :: "byte list"
  defines "out \<equiv> wav_header w (int N) @ rest"
  shows "take 4 out = map of_char ''RIFF''"
    and "getUint32 out 4 = (36 + N * 2) mod 2 ^ 32"
    and "take 8 (drop 8 out) = map of_char ''WAVEfmt ''"
    and "getUint32 out 16 = 16"
    and "getUint16 out 20 = 1"
    and "getUint16 out 22 = (case numChannels w of None \<Rightarrow> 0 | Some c \<Rightarrow> c mod 2 ^ 16)"
    and "getUint32 out 24 = (case sampleRate w of None \<Rightarrow> 0 | Some r \<Rightarrow> r mod 2 ^ 32)"
    and "getUint16 out 32 = (case numChannels w of None \<Rightarrow> 0 | Some c \<Rightarrow> (c * 2) mod 2 ^ 16)"
    and "getUint16 out 34 = 16"
    and "take 4 (drop 36 out) = map of_char ''data''"
    and "getUint32 out 40 = (N * 2) mod 2 ^ 32"
proof -
  let ?A0 = "map of_char ''RIFF'' :: byte list"
  let ?A4 = "bytes32 (ToUint32 (Some (36 + int N * 2))) True"
  let ?A8 = "map of_char ''WAVEfmt '' :: byte list"
  let ?A16 = "bytes32 16 True"
  let ?A20 = "bytes16 1 True"
  let ?A22 = "bytes16 (ToUint16 (ToNumber (numChannels w))) True"
  let ?A24 = "bytes32 (ToUint32 (ToNumber (sampleRate w))) True"
  let ?A28 = "bytes32 (ToUint32 (times (sampleRate w) 4)) True"
  let ?A32 = "bytes16 (ToUint16 (times (numChannels w) 2)) True"
  let ?A34 = "bytes16 16 True"
  let ?A36 = "map of_char ''data'' :: byte list"
  let ?A40 = "bytes32 (ToUint32 (Some (int N * 2))) True"
  have out: "out = ?A0 @ ?A4 @ ?A8 @ ?A16 @ ?A20 @ ?A22 @ ?A24 @ ?A28 @ ?A32 @ ?A34 @ ?A36 @ ?A40 @ rest"
    by (simp add: out_def wav_header_def)
  show "take 4 out = map of_char ''RIFF''"
    by (simp add: out)
  show "take 8 (drop 8 out) = map of_char ''WAVEfmt ''"
    by (simp add: out)
  show "take 4 (drop 36 out) = map of_char ''data''"
    by (simp add: out)
  have "36 + int N * 2 = int (36 + N * 2)" by simp
  then have v4: "unat (ToUint32 (Some (36 + int N * 2))) = (36 + N * 2) mod 2 ^ 32"
    by (simp only: unat_ToUint32_nat)
  have "getUint32 out 4 = unat (ToUint32 (Some (36 + int N * 2)))"
    by (rule getUint32_at [where pre = ?A0
          and post = "?A8 @ ?A16 @ ?A20 @ ?A22 @ ?A24 @ ?A28 @ ?A32 @ ?A34 @ ?A36 @ ?A40 @ rest"])
       (simp_all add: out)
  then show "getUint32 out 4 = (36 + N * 2) mod 2 ^ 32"
    by (simp only: v4)
  have "getUint32 out 16 = unat (16 :: 32 word)"
    by (rule getUint32_at [where pre = "?A0 @ ?A4 @ ?A8"
          and post = "?A20 @ ?A22 @ ?A24 @ ?A28 @ ?A32 @ ?A34 @ ?A36 @ ?A40 @ rest"])
       (simp_all add: out)
  then show "getUint32 out 16 = 16" by simp
  have "getUint16 out 20 = unat (1 :: 16 word)"
    by (rule getUint16_at [where pre = "?A0 @ ?A4 @ ?A8 @ ?A16"
          and post = "?A22 @ ?A24 @ ?A28 @ ?A32 @ ?A34 @ ?A36 @ ?A40 @ rest"])
       (simp_all add: out)
  then show "getUint16 out 20 = 1" by simp
  have "getUint16 out 22 = unat (ToUint16 (ToNumber (numChannels w)))"
    by (rule getUint16_at [where pre = "?A0 @ ?A4 @ ?A8 @ ?A16 @ ?A20"
          and post = "?A24 @ ?A28 @ ?A32 @ ?A34 @ ?A36 @ ?A40 @ rest"])
       (simp_all add: out)
  then show "getUint16 out 22 = (case numChannels w of None \<Rightarrow> 0 | Some c \<Rightarrow> c mod 2 ^ 16)"
    by (simp only: unat_ToUint16_ToNumber)
  have "getUint32 out 24 = unat (ToUint32 (ToNumber (sampleRate w)))"
    by (rule getUint32_at [where pre = "?A0 @ ?A4 @ ?A8 @ ?A16 @ ?A20 @ ?A22"
          and post = "?A28 @ ?A32 @ ?A34 @ ?A36 @ ?A40 @ rest"])
       (simp_all add: out)
  then show "getUint32 out 24 = (case sampleRate w of None \<Rightarrow> 0 | Some r \<Rightarrow> r mod 2 ^ 32)"
    by (simp only: unat_ToUint32_ToNumber)
  have "getUint16 out 32 = unat (ToUint16 (times (numChannels w) 2))"
    by (rule getUint16_at [where pre = "?A0 @ ?A4 @ ?A8 @ ?A16 @ ?A20 @ ?A22 @ ?A24 @ ?A28"
          and post = "?A34 @ ?A36 @ ?A40 @ rest"])
       (simp_all add: out)
  then show "getUint16 out 32 = (case numChannels w of None \<Rightarrow> 0 | Some c \<Rightarrow> (c * 2) mod 2 ^ 16)"
    by (simp only: unat_ToUint16_times2)
  have "getUint16 out 34 = unat (16 :: 16 word)"
    by (rule getUint16_at [where pre = "?A0 @ ?A4 @ ?A8 @ ?A16 @ ?A20 @ ?A22 @ ?A24 @ ?A28 @ ?A32"
          and post = "?A36 @ ?A40 @ rest"])
       (simp_all add: out)
  then show "getUint16 out 34 = 16" by simp
  show "getUint32 out 40 = (N * 2) mod 2 ^ 32"
    unfolding out_def by (rule encodeWav_size_field)
qed

subsection \<open>The value written for a sample\<close>

lemma int_unat16: "int (unat (word_of_int i :: 16 word)) = i mod 65536"
  by (simp add: uint_word_of_int)

lemma signed16_arith:
  assumes "- 32768 \<le> i" "i < 32768"
  shows "(let u = i mod 65536 in if u < 32768 then u else u - 65536) = (i::int)"
proof (cases "0 \<le> i")
  case True
  with assms have "i mod 65536 = i" by simp
  with assms show ?thesis by simp
next
  case False
  have "(i + 65536) mod 65536 = i + 65536"
    using assms False by (intro mod_pos_pos_trivial) simp_all
  then have "i mod 65536 = i + 65536" by simp
  with assms False show ?thesis by simp
qed

lemma getInt16_bytes16:
  assumes "length pre = off" "- 32768 \<le> i" "i < 32768"
  shows "getInt16 (pre @ bytes16 (word_of_int i) True @ post) off = i"
  unfolding getInt16_def getUint16_bytes16 [OF assms(1)] int_unat16
  by (rule signed16_arith [OF assms(2,3)])

lemma js_truncate_eq: "js_truncate x = round_toward_zero x"
  by (simp add: js_truncate_def round_toward_zero_def ceiling_def abs_if)

lemma clamp_eq: "max (- 1) (min 1 s) = clamp s"
  by (simp add: clamp_def max_def min_def)

lemma clamp_bounds: "- 1 \<le> clamp s" "clamp s \<le> 1"
  by (simp_all add: clamp_def)

lemma round_toward_zero_bounds:
  assumes "- 1 \<le> c" "c \<le> 1"
  shows "- 32767 \<le> round_toward_zero (c * 32767)" "round_toward_zero (c * 32767) \<le> 32767"
proof -
  have lo: "- 32767 \<le> c * 32767" and hi: "c * 32767 \<le> 32767"
    using assms by simp_all
  show "- 32767 \<le> round_toward_zero (c * 32767)"
    using lo by (auto simp: round_toward_zero_def le_floor_iff le_ceiling_iff)
  show "round_toward_zero (c * 32767) \<le> 32767"
    using hi by (auto simp: round_toward_zero_def floor_le_iff ceiling_le_iff)
qed

lemma sample16_eq: "sample16 x = word_of_int (written_value x)"
proof (cases x)
  case (Num s)
  then show ?thesis
    by (simp add: sample16_def written_value_def js_truncate_eq clamp_eq)
qed (simp_all add: sample16_def written_value_def js_truncate_def)

lemma written_value_bounds: "- 32767 \<le> written_value x" "written_value x \<le> 32767"
  using round_toward_zero_bounds [OF clamp_bounds]
  by (cases x; simp add: written_value_def)+

lemma pcm_frame_split:
  "k < length xs \<Longrightarrow>
   concat (map (\<lambda>x. bytes16 (sample16 x) True) xs) =
     concat (map (\<lambda>x. bytes16 (sample16 x) True) (take k xs))
       @ bytes16 (sample16 (xs ! k)) True
       @ concat (map (\<lambda>x. bytes16 (sample16 x) True) (drop (Suc k) xs))"
  by (subst id_take_nth_drop [of k xs]) simp_all

lemma getInt16_pcm16:
  assumes "k < totalSampleCount fs" "length pre = off"
  shows "getInt16 (pre @ pcm16 fs) (off + 2 * k) = written_value (concat fs ! k)"
proof -
  let ?xs = "concat fs"
  let ?enc = "\<lambda>ys. concat (map (\<lambda>x. bytes16 (sample16 x) True) ys)"
  have k: "k < length ?xs"
    using assms(1) by (simp add: totalSampleCount_def length_concat)
  have len: "length (pre @ ?enc (take k ?xs)) = off + 2 * k"
    using k assms(2) by (simp add: length_pcm_frame)
  have "pre @ pcm16 fs = (pre @ ?enc (take k ?xs)) @ bytes16 (word_of_int (written_value (?xs ! k))) True
      @ ?enc (drop (Suc k) ?xs)"
    unfolding pcm16_def by (subst pcm_frame_split [OF k]) (simp add: sample16_eq)
  then show ?thesis
    using getInt16_bytes16 [OF len, of "written_value (?xs ! k)"] written_value_bounds [of "?xs ! k"]
    by simp
qed

section \<open>Sample conversion\<close>

text \<open>
  Claim C1. \<open>encodeWav\<close>, called with the frames and their total number of samples,
  returns a view in which the \<open>k\<close>-th sample of the frames, taken in arrival order
  and within a frame in array order, is the little-endian signed 16-bit value at byte
  offset \<open>44 + 2 * k\<close>: for a finite sample \<open>s\<close> it is \<open>s\<close> clamped to
  \<open>[-1, 1]\<close>, multiplied by 32767 and rounded toward zero (an infinite sample is
  clamped to 1 or -1; NaN, which no clamping changes, is written as 0). For \<open>s\<close> in
  \<open>[-1, 1]\<close> the value is \<open>s * 32767\<close> rounded toward zero and lies in
  \<open>[-32767, 32767]\<close>.
\<close>

theorem sample_conversion:
  "\<exists>out. encodeWav w fs (int (totalSampleCount fs)) = Some out \<and>
     (\<forall>k < totalSampleCount fs.
        getInt16 out (44 + 2 * k) =
          (case concat fs ! k of
             Num s \<Rightarrow> round_toward_zero (clamp s * 32767)
           | PosInf \<Rightarrow> 32767 | NegInf \<Rightarrow> - 32767 | NaN \<Rightarrow> 0)) \<and>
     (\<forall>k s. k < totalSampleCount fs \<and> concat fs ! k = Num s \<and> - 1 \<le> s \<and> s \<le> 1 \<longrightarrow>
        getInt16 out (44 + 2 * k) = round_toward_zero (s * 32767) \<and>
        - 32767 \<le> getInt16 out (44 + 2 * k) \<and> getInt16 out (44 + 2 * k) \<le> 32767)"
proof -
  let ?out = "wav_header w (int (totalSampleCount fs)) @ pcm16 fs"
  have val: "getInt16 ?out (44 + 2 * k) = written_value (concat fs ! k)"
    if "k < totalSampleCount fs" for k
    using getInt16_pcm16 [OF that, of "wav_header w (int (totalSampleCount fs))" 44] by simp
  have a: "\<forall>k < totalSampleCount fs.
        getInt16 ?out (44 + 2 * k) =
          (case concat fs ! k of
             Num s \<Rightarrow> round_toward_zero (clamp s * 32767)
           | PosInf \<Rightarrow> 32767 | NegInf \<Rightarrow> - 32767 | NaN \<Rightarrow> 0)"
    using val by (simp add: written_value_def)
  have b: "getInt16 ?out (44 + 2 * k) = round_toward_zero (s * 32767) \<and>
        - 32767 \<le> getInt16 ?out (44 + 2 * k) \<and> getInt16 ?out (44 + 2 * k) \<le> 32767"
    if "k < totalSampleCount fs" "concat fs ! k = Num s" "- 1 \<le> s" "s \<le> 1" for k s
  proof -
    have "clamp s = s" using that(3,4) by (simp add: clamp_def)
    then have "written_value (concat fs ! k) = round_toward_zero (s * 32767)"
      by (simp add: written_value_def that(2))
    then show ?thesis
      using val [OF that(1)] round_toward_zero_bounds [OF that(3,4)] by simp
  qed
  show ?thesis
  proof (intro exI conjI)
    show "encodeWav w fs (int (totalSampleCount fs)) = Some ?out"
      by (rule encodeWav_total)
    show "\<forall>k < totalSampleCount fs.
        getInt16 ?out (44 + 2 * k) =
          (case concat fs ! k of
             Num s \<Rightarrow> round_toward_zero (clamp s * 32767)
           | PosInf \<Rightarrow> 32767 | NegInf \<Rightarrow> - 32767 | NaN \<Rightarrow> 0)"
      by (rule a)
    show "\<forall>k s. k < totalSampleCount fs \<and> concat fs ! k = Num s \<and> - 1 \<le> s \<and> s \<le> 1 \<longrightarrow>
        getInt16 ?out (44 + 2 * k) = round_toward_zero (s * 32767) \<and>
        - 32767 \<le> getInt16 ?out (44 + 2 * k) \<and> getInt16 ?out (44 + 2 * k) \<le> 32767"
      using b by blast
  qed
qed

theorem sample_conversion_witness:
  "\<exists>out. encodeWav worker_init [[Num (1 / 2), Num (- 1 / 2)], [Num 1, Num (- 1)]] 4 = Some out
     \<and> getInt16 out 46 = - 16383 \<and> - 32767 \<le> getInt16 out 46 \<and> getInt16 out 46 \<le> 32767"
proof -
  let ?fs = "[[Num (1 / 2), Num (- 1 / 2)], [Num 1, Num (- 1)]]"
  have n: "totalSampleCount ?fs = 4"
    by (simp add: totalSampleCount_def)
  have r: "round_toward_zero (- 1 / 2 * 32767) = - 16383"
    by code_simp
  obtain out where out: "encodeWav worker_init ?fs 4 = Some out"
    and val: "\<forall>k s. k < 4 \<and> concat ?fs ! k = Num s \<and> - 1 \<le> s \<and> s \<le> 1 \<longrightarrow>
        getInt16 out (44 + 2 * k) = round_toward_zero (s * 32767) \<and>
        - 32767 \<le> getInt16 out (44 + 2 * k) \<and> getInt16 out (44 + 2 * k) \<le> 32767"
    using sample_conversion [of worker_init ?fs] unfolding n by auto
  have "getInt16 out (44 + 2 * 1) = round_toward_zero (- 1 / 2 * 32767) \<and>
        - 32767 \<le> getInt16 out (44 + 2 * 1) \<and> getInt16 out (44 + 2 * 1) \<le> 32767"
    using val [rule_format, of 1 "- 1 / 2"] by simp
  with out r show ?thesis by simp
qed

section \<open>Size of the encoded file\<close>

text \<open>
  Claim C2, as amended. For frames holding \<open>N\<close> samples in all, \<open>encodeWav\<close>
  called with the count \<open>N\<close> returns, whatever the channel count, a view of exactly
  \<open>44 + N * 2\<close> bytes whose 32-bit little-endian field at offset 40 is \<open>N * 2\<close>
  (reduced modulo \<open>2^32\<close>, the width of the field). Its first 44 bytes are a header
  with the tags \<open>RIFF\<close>, \<open>WAVE\<close>, \<open>fmt \<close> and \<open>data\<close> at offsets 0, 8,
  12 and 36, the chunk size \<open>36 + N * 2\<close> at offset 4, the format chunk size 16, the
  audio format 1 and 16 bits per sample, and at offsets 22, 24 and 32 the channel count,
  the sample rate and the block align (twice the channel count) that \<open>init\<close> has
  set, each reduced to the width of its field, or 0 where \<open>init\<close> has not run. For
  no frames and the count 0 the encoder does not fail: it returns these 44 bytes, with
  chunk size 36 and data size 0. The byte rate at offset 28 is not part of this
  statement.
\<close>

theorem encode_length:
  "(\<exists>out. encodeWav w fs (int (totalSampleCount fs)) = Some out
      \<and> length out = 44 + totalSampleCount fs * 2
      \<and> take 4 out = map of_char ''RIFF''
      \<and> getUint32 out 4 = (36 + totalSampleCount fs * 2) mod 2 ^ 32
      \<and> take 8 (drop 8 out) = map of_char ''WAVEfmt ''
      \<and> getUint32 out 16 = 16
      \<and> getUint16 out 20 = 1
      \<and> getUint16 out 22 = (case numChannels w of None \<Rightarrow> 0 | Some c \<Rightarrow> c mod 2 ^ 16)
      \<and> getUint32 out 24 = (case sampleRate w of None \<Rightarrow> 0 | Some r \<Rightarrow> r mod 2 ^ 32)
      \<and> getUint16 out 32 = (case numChannels w of None \<Rightarrow> 0 | Some c \<Rightarrow> (c * 2) mod 2 ^ 16)
      \<and> getUint16 out 34 = 16
      \<and> take 4 (drop 36 out) = map of_char ''data''
      \<and> getUint32 out 40 = (totalSampleCount fs * 2) mod 2 ^ 32)
   \<and> (\<exists>out. encodeWav w [] 0 = Some out
      \<and> length out = 44
      \<and> take 4 out = map of_char ''RIFF''
      \<and> getUint32 out 4 = 36
      \<and> take 8 (drop 8 out) = map of_char ''WAVEfmt ''
      \<and> getUint32 out 16 = 16
      \<and> getUint16 out 20 = 1
      \<and> getUint16 out 22 = (case numChannels w of None \<Rightarrow> 0 | Some c \<Rightarrow> c mod 2 ^ 16)
      \<and> getUint32 out 24 = (case sampleRate w of None \<Rightarrow> 0 | Some r \<Rightarrow> r mod 2 ^ 32)
      \<and> getUint16 out 32 = (case numChannels w of None \<Rightarrow> 0 | Some c \<Rightarrow> (c * 2) mod 2 ^ 16)
      \<and> getUint16 out 34 = 16
      \<and> take 4 (drop 36 out) = map of_char ''data''
      \<and> getUint32 out 40 = 0)"
proof (rule conjI)
  let ?N = "totalSampleCount fs"
  let ?out = "wav_header w (int ?N) @ pcm16 fs"
  have "encodeWav w fs (int ?N) = Some ?out"
    by (rule encodeWav_total)
  moreover have "length ?out = 44 + ?N * 2"
    by simp
  ultimately show "\<exists>out. encodeWav w fs (int ?N) = Some out
      \<and> length out = 44 + ?N * 2
      \<and> take 4 out = map of_char ''RIFF''
      \<and> getUint32 out 4 = (36 + ?N * 2) mod 2 ^ 32
      \<and> take 8 (drop 8 out) = map of_char ''WAVEfmt ''
      \<and> getUint32 out 16 = 16
      \<and> getUint16 out 20 = 1
      \<and> getUint16 out 22 = (case numChannels w of None \<Rightarrow> 0 | Some c \<Rightarrow> c mod 2 ^ 16)
      \<and> getUint32 out 24 = (case sampleRate w of None \<Rightarrow> 0 | Some r \<Rightarrow> r mod 2 ^ 32)
      \<and> getUint16 out 32 = (case numChannels w of None \<Rightarrow> 0 | Some c \<Rightarrow> (c * 2) mod 2 ^ 16)
      \<and> getUint16 out 34 = 16
      \<and> take 4 (drop 36 out) = map of_char ''data''
      \<and> getUint32 out 40 = (?N * 2) mod 2 ^ 32"
    using wav_header_fields [of w ?N "pcm16 fs"] by blast
next
  let ?out = "wav_header w (int 0) @ pcm16 []"
  have t0: "totalSampleCount [] = 0"
    by (simp add: totalSampleCount_def)
  have "encodeWav w [] 0 = Some ?out"
    using encodeWav_total [of w "[]"] by (simp add: t0)
  moreover have "length ?out = 44"
    by (simp add: t0)
  moreover have "getUint32 ?out 4 = 36" "getUint32 ?out 40 = 0"
    using wav_header_fields(2,11) [of w 0 "pcm16 []"] by simp_all
  ultimately show "\<exists>out. encodeWav w [] 0 = Some out
      \<and> length out = 44
      \<and> take 4 out = map of_char ''RIFF''
      \<and> getUint32 out 4 = 36
      \<and> take 8 (drop 8 out) = map of_char ''WAVEfmt ''
      \<and> getUint32 out 16 = 16
      \<and> getUint16 out 20 = 1
      \<and> getUint16 out 22 = (case numChannels w of None \<Rightarrow> 0 | Some c \<Rightarrow> c mod 2 ^ 16)
      \<and> getUint32 out 24 = (case sampleRate w of None \<Rightarrow> 0 | Some r \<Rightarrow> r mod 2 ^ 32)
      \<and> getUint16 out 32 = (case numChannels w of None \<Rightarrow> 0 | Some c \<Rightarrow> (c * 2) mod 2 ^ 16)
      \<and> getUint16 out 34 = 16
      \<and> take 4 (drop 36 out) = map of_char ''data''
      \<and> getUint32 out 40 = 0"
    using wav_header_fields(1,3-10) [of w 0 "pcm16 []"] by blast
qed

text \<open>
  With two channels and one sample the view has 46 bytes and the field is 2, not the
  48 and 4 of the claim as it was stated.
\<close>

theorem encode_length_counterexample:
  "map_option length
     (encodeWav \<lparr>recLength = 1, recBuffers = [[Num 0]], sampleRate = Some 8000, numChannels = Some 2\<rparr>
        [[Num 0]] 1) \<noteq> Some (44 + 1 * 2 * 2)
   \<and> map_option (\<lambda>out. getUint32 out 40)
     (encodeWav \<lparr>recLength = 1, recBuffers = [[Num 0]], sampleRate = Some 8000, numChannels = Some 2\<rparr>
        [[Num 0]] 1) \<noteq> Some (1 * 2 * 2)"
proof -
  have "encodeWav \<lparr>recLength = 1, recBuffers = [[Num 0]], sampleRate = Some 8000, numChannels = Some 2\<rparr>
        [[Num 0]] 1
    = Some [82, 73, 70, 70, 38, 0, 0, 0, 87, 65, 86, 69, 102, 109, 116, 32, 16, 0, 0, 0, 1, 0, 2, 0,
           64, 31, 0, 0, 0, 125, 0, 0, 4, 0, 16, 0, 100, 97, 116, 97, 2, 0, 0, 0, 0, 0]"
    by code_simp
  then show ?thesis
    by (simp add: getUint32_def)
qed

section \<open>The byte rate field\<close>

lemma byte_rate_bytes:
  "encodeWav \<lparr>recLength = 0, recBuffers = [], sampleRate = Some 8000, numChannels = Some 1\<rparr> [] 0
    = Some [82, 73, 70, 70, 36, 0, 0, 0, 87, 65, 86, 69, 102, 109, 116, 32, 16, 0, 0, 0, 1, 0, 1, 0,
           64, 31, 0, 0, 0, 125, 0, 0, 2, 0, 16, 0, 100, 97, 116, 97, 0, 0, 0, 0]"
  by code_simp

text \<open>
  Claim C3. The claim asks for \<open>sampleRate * numChannels * 2\<close> in the 32-bit field
  at offset 28. For 8000 Hz and one channel, that is 16000; \<open>encodeWav\<close> writes
  \<open>sampleRate * 4\<close>, here 32000.
\<close>

theorem byte_rate_field:
  "map_option (\<lambda>out. getUint32 out 28)
     (encodeWav \<lparr>recLength = 0, recBuffers = [], sampleRate = Some 8000, numChannels = Some 1\<rparr> [] 0)
   = Some 32000"
  unfolding byte_rate_bytes by (simp add: getUint32_def)

section \<open>The accumulator\<close>

lemma exportWav_state: "fst (exportWav w t) = w"
  by (simp add: exportWav_def split: option.split)

lemma onmessage_accumulator_ok:
  "accumulator_ok w \<Longrightarrow> accumulator_ok (fst (onmessage w m))"
  by (simp add: accumulator_ok_def onmessage_def init_def record'_def clear_def
      exportWav_state totalSampleCount_def)

lemma run_worker_accumulator_ok:
  "accumulator_ok w \<Longrightarrow> accumulator_ok (fst (run_worker w ms))"
proof (induction ms arbitrary: w)
  case Nil
  then show ?case by simp
next
  case (Cons m ms)
  have "accumulator_ok (fst (run_worker (fst (onmessage w m)) ms))"
    by (rule Cons.IH) (rule onmessage_accumulator_ok [OF Cons.prems])
  then show ?case
    by (simp add: split_beta)
qed

text \<open>
  Claim C6. After any sequence of messages handled from the worker's initial state,
  \<open>recLength\<close> is the sum of the lengths of the frames in \<open>recBuffers\<close> and is
  not negative. A \<open>record\<close> message appends its frame and adds the frame's length to
  \<open>recLength\<close>; a \<open>clear\<close> message empties \<open>recBuffers\<close> and sets
  \<open>recLength\<close> to 0. Neither posts a message or changes another variable.
\<close>

theorem accumulator_invariant:
  "recLength (fst (run_worker worker_init ms))
      = int (totalSampleCount (recBuffers (fst (run_worker worker_init ms))))
   \<and> 0 \<le> recLength (fst (run_worker worker_init ms))
   \<and> onmessage w (m\<lparr>command := ''record'', buffer := f\<rparr>)
      = (w\<lparr>recBuffers := recBuffers w @ [f], recLength := recLength w + int (length f)\<rparr>, [])
   \<and> onmessage w (m\<lparr>command := ''clear''\<rparr>) = (w\<lparr>recLength := 0, recBuffers := []\<rparr>, [])"
proof -
  have "accumulator_ok worker_init"
    by (simp add: accumulator_ok_def worker_init_def totalSampleCount_def)
  then have "accumulator_ok (fst (run_worker worker_init ms))"
    by (rule run_worker_accumulator_ok)
  then show ?thesis
    by (simp add: accumulator_ok_def onmessage_def record'_def clear_def)
qed

text \<open>
  Claim C8. Handling an \<open>exportWav\<close> message leaves every variable of the worker as
  it was, the frames and \<open>recLength\<close> among them, whether the encoding succeeds or
  throws.
\<close>

theorem export_keeps_accumulator:
  "fst (exportWav w t) = w \<and> fst (onmessage w (m\<lparr>command := ''exportWav''\<rparr>)) = w"
  by (simp add: onmessage_def exportWav_state)

text \<open>
  Claim C10. A message whose command is none of \<open>init\<close>, \<open>record\<close>,
  \<open>exportWav\<close> and \<open>clear\<close> changes no variable of the worker, and the worker
  posts nothing.
\<close>

theorem unknown_command_ignored:
  "command m \<notin> {''init'', ''record'', ''exportWav'', ''clear''} \<Longrightarrow> onmessage w m = (w, [])"
  by (simp add: onmessage_def)

theorem unknown_command_ignored_witness:
  "onmessage worker_init
     \<lparr>command = ''stop'', config = \<lparr>config_sampleRate = 44100, config_numChannels = 1\<rparr>,
      buffer = [Num 1], type = ''audio/wav''\<rparr>
   = (worker_init, [])"
  using unknown_command_ignored [of
     "\<lparr>command = ''stop'', config = \<lparr>config_sampleRate = 44100, config_numChannels = 1\<rparr>,
      buffer = [Num 1], type = ''audio/wav''\<rparr>" worker_init]
  by simp

section \<open>A concrete recording\<close>

lemma scenario_encoded:
  "encodeWav scenario_worker (recBuffers scenario_worker) (recLength scenario_worker) =
     Some [82, 73, 70, 70, 44, 0, 0, 0, 87, 65, 86, 69, 102, 109, 116, 32, 16, 0, 0, 0, 1, 0, 1, 0,
           64, 31, 0, 0, 0, 125, 0, 0, 2, 0, 16, 0, 100, 97, 116, 97, 8, 0, 0, 0,
           0xFF, 0x3F, 0x01, 0xC0, 0xFF, 0x7F, 0x01, 0x80]"
  by code_simp

text \<open>
  Claim C7, as amended. For the frames \<open>[0.5, -0.5]\<close> and \<open>[1.0, -1.0]\<close> at
  8000 Hz and one channel the worker encodes 52 bytes, the data size field is 8, and the
  sample bytes are \<open>FF 3F\<close>, \<open>01 C0\<close>, \<open>FF 7F\<close>, \<open>01 80\<close>: the values
  16383, -16383, 32767 and -32767.
\<close>

theorem scenario_bytes:
  "map_option length (encodeWav scenario_worker (recBuffers scenario_worker) (recLength scenario_worker)) = Some 52
   \<and> map_option (\<lambda>out. getUint32 out 40) (encodeWav scenario_worker (recBuffers scenario_worker) (recLength scenario_worker)) = Some 8
   \<and> map_option (drop 44) (encodeWav scenario_worker (recBuffers scenario_worker) (recLength scenario_worker))
       = Some [0xFF, 0x3F, 0x01, 0xC0, 0xFF, 0x7F, 0x01, 0x80]"
  unfolding scenario_encoded by (simp add: getUint32_def)

text \<open>The sample bytes are not those of the claim as it was stated.\<close>

theorem scenario_bytes_counterexample:
  "map_option (drop 44) (encodeWav scenario_worker (recBuffers scenario_worker) (recLength scenario_worker))
     \<noteq> Some [0x00, 0x40, 0x00, 0xC0, 0xFF, 0x7F, 0x01, 0x80]"
  by code_simp

section \<open>Order of delivery\<close>

lemma run_worker_append:
  "run_worker w (xs @ ys) =
     (let (w', out) = run_worker w xs; (w'', out') = run_worker w' ys in (w'', out @ out'))"
  by (induction xs arbitrary: w) (simp_all add: split_beta)

lemma posts_service_onmessage [simp]: "posts (snd (service_onmessage s r)) = []"
  by (simp add: service_onmessage_def export_callback_def Let_def split: option.split)

lemma settled_step:
  "settled ((step s e)\<lparr>to_worker := to_worker (step s e) @ ms\<rparr>)
     = settled (s\<lparr>to_worker := to_worker s @ sent [e] @ ms\<rparr>)"
proof (cases e)
  case WorkerTurn
  then show ?thesis
    by (cases "to_worker s") (simp_all add: settled_def split_beta)
next
  case ServiceTurn
  then show ?thesis
    by (cases "to_service s") (simp_all add: settled_def service_does_def)
qed (simp_all add: settled_def service_does_def onaudioprocess_def stopRecording_def
      audioContext_closed_def)

lemma sent_Cons: "sent (e # es) = sent [e] @ sent es"
  by (cases e) simp_all

lemma settled_exec:
  "settled ((exec s sch)\<lparr>to_worker := to_worker (exec s sch) @ ms\<rparr>)
     = settled (s\<lparr>to_worker := to_worker s @ sent sch @ ms\<rparr>)"
proof (induction sch arbitrary: s ms)
  case Nil
  then show ?case by simp
next
  case (Cons e es)
  have "settled ((exec (step s e) es)\<lparr>to_worker := to_worker (exec (step s e) es) @ ms\<rparr>)
      = settled ((step s e)\<lparr>to_worker := to_worker (step s e) @ sent es @ ms\<rparr>)"
    by (rule Cons.IH)
  also have "\<dots> = settled (s\<lparr>to_worker := to_worker s @ sent [e] @ sent es @ ms\<rparr>)"
    by (rule settled_step)
  finally show ?case
    using sent_Cons [of e es] by simp
qed

lemma sent_filter: "sent (filter is_call sch) = sent sch"
  by (induction sch rule: sent.induct) (simp_all add: is_call_def)

lemma sent_records: "sent (map AudioProcess fs @ es) = map record_message fs @ sent es"
  by (induction fs) simp_all

lemma run_records:
  "run_worker w (map record_message fs) =
     (w\<lparr>recBuffers := recBuffers w @ fs, recLength := recLength w + int (totalSampleCount fs)\<rparr>, [])"
proof (induction fs arbitrary: w)
  case Nil
  then show ?case by (simp add: totalSampleCount_def)
next
  case (Cons f fs)
  have "onmessage w (record_message f) = (record' w f, [])"
    by (simp add: onmessage_def record_message_def cmdRecord_def)
  then show ?case
    by (simp add: Cons.IH record'_def totalSampleCount_def)
qed

lemma wav_header_cong:
  "sampleRate w' = sampleRate w \<Longrightarrow> numChannels w' = numChannels w \<Longrightarrow>
   wav_header w' n = wav_header w n"
  by (simp add: wav_header_def)

lemma encodeWav_cong:
  "sampleRate w' = sampleRate w \<Longrightarrow> numChannels w' = numChannels w \<Longrightarrow>
   encodeWav w' fs n = encodeWav w fs n"
  by (simp add: encodeWav_def)

lemma run_records_export:
  assumes "recBuffers w = []" "recLength w = 0"
  shows "run_worker w (map record_message fs @ [exportWav_message]) =
     (w\<lparr>recBuffers := fs, recLength := int (totalSampleCount fs)\<rparr>,
      [\<lparr>reply_command = ''exportWav'',
        data = Blob (wav_header w (int (totalSampleCount fs)) @ pcm16 fs) mimeType\<rparr>])"
proof -
  let ?w = "w\<lparr>recBuffers := fs, recLength := int (totalSampleCount fs)\<rparr>"
  have rec: "run_worker w (map record_message fs) = (?w, [])"
    using assms by (simp add: run_records)
  have "encodeWav ?w fs (int (totalSampleCount fs)) = encodeWav w fs (int (totalSampleCount fs))"
    by (rule encodeWav_cong) simp_all
  then have "exportWav ?w mimeType =
      (?w, [\<lparr>reply_command = ''exportWav'',
        data = Blob (wav_header w (int (totalSampleCount fs)) @ pcm16 fs) mimeType\<rparr>])"
    by (simp add: exportWav_def encodeWav_total)
  then have "onmessage ?w exportWav_message =
      (?w, [\<lparr>reply_command = ''exportWav'',
        data = Blob (wav_header w (int (totalSampleCount fs)) @ pcm16 fs) mimeType\<rparr>])"
    by (simp add: onmessage_def exportWav_message_def cmdExportWav_def)
  then show ?thesis
    by (simp add: run_worker_append rec)
qed

lemma jitter_schedule_run:
  "to_worker (exec system_new jitter_schedule) = []"
  by code_simp

text \<open>
  Claim C4. Take any schedule in which the calls of the service are, in this order, the
  audio callbacks for the frames \<open>fs\<close> and then one \<open>stopRecording\<close>, with the
  turns of the worker and of the service anywhere in between, and start it with the
  worker's queue and accumulator empty. Whatever the worker has posted at the end is
  the one reply whose blob encodes exactly the frames \<open>fs\<close>, in the order of the
  calls, or nothing yet; and once the worker's queue is empty it has posted that reply,
  and its accumulator holds exactly \<open>fs\<close>.
\<close>

theorem export_after_records:
  assumes "filter is_call sch = map AudioProcess fs @ [StopRecording k]"
    and "to_worker s = []" and "posted s = []"
    and "recBuffers (wrk s) = []" and "recLength (wrk s) = 0"
  shows "\<exists>out. encodeWav (wrk s) fs (int (totalSampleCount fs)) = Some out \<and>
     (posted (exec s sch) = [] \<or>
      posted (exec s sch) = [\<lparr>reply_command = ''exportWav'', data = Blob out mimeType\<rparr>]) \<and>
     (to_worker (exec s sch) = [] \<longrightarrow>
        posted (exec s sch) = [\<lparr>reply_command = ''exportWav'', data = Blob out mimeType\<rparr>] \<and>
        recBuffers (wrk (exec s sch)) = fs \<and>
        recLength (wrk (exec s sch)) = int (totalSampleCount fs))"
proof -
  let ?out = "wav_header (wrk s) (int (totalSampleCount fs)) @ pcm16 fs"
  let ?r = "\<lparr>reply_command = ''exportWav'', data = Blob ?out mimeType\<rparr>"
  let ?s' = "exec s sch"
  have "sent sch = sent (map AudioProcess fs @ [StopRecording k])"
    using assms(1) sent_filter [of sch] by simp
  then have snt: "sent sch = map record_message fs @ [exportWav_message]"
    by (simp add: sent_records)
  have "settled ?s' = settled (s\<lparr>to_worker := to_worker s @ sent sch @ []\<rparr>)"
    using settled_exec [of s sch "[]"] by simp
  also have "\<dots> = (wrk s\<lparr>recBuffers := fs, recLength := int (totalSampleCount fs)\<rparr>, [?r])"
    using assms(2-5) by (simp add: settled_def snt run_records_export)
  finally have st: "settled ?s' = (wrk s\<lparr>recBuffers := fs, recLength := int (totalSampleCount fs)\<rparr>, [?r])" .
  then have app: "posted ?s' @ snd (run_worker (wrk ?s') (to_worker ?s')) = [?r]"
    by (simp add: settled_def split_beta)
  have a: "posted ?s' = [] \<or> posted ?s' = [?r]"
    using app by (cases "posted ?s'") simp_all
  have b: "posted ?s' = [?r] \<and> recBuffers (wrk ?s') = fs
      \<and> recLength (wrk ?s') = int (totalSampleCount fs)" if "to_worker ?s' = []"
    using st that by (simp add: settled_def)
  show ?thesis
  proof (intro exI conjI impI)
    show "encodeWav (wrk s) fs (int (totalSampleCount fs)) = Some ?out"
      by (rule encodeWav_total)
  qed (use a b in simp_all)
qed

theorem export_after_records_witness:
  "\<exists>out. encodeWav worker_init [[Num 1], [Num (- 1)]] 2 = Some out \<and>
     posted (exec system_new jitter_schedule)
       = [\<lparr>reply_command = ''exportWav'', data = Blob out mimeType\<rparr>] \<and>
     recBuffers (wrk (exec system_new jitter_schedule)) = [[Num 1], [Num (- 1)]]"
proof -
  have calls: "filter is_call jitter_schedule
      = map AudioProcess [[Num 1], [Num (- 1)]] @ [StopRecording 0]"
    by (simp add: jitter_schedule_def is_call_def)
  have n: "int (totalSampleCount [[Num 1], [Num (- 1)]]) = 2"
    by (simp add: totalSampleCount_def)
  have s0: "to_worker system_new = []" "posted system_new = []"
    "recBuffers (wrk system_new) = []" "recLength (wrk system_new) = 0"
    by (simp_all add: system_new_def worker_init_def)
  have w: "wrk system_new = worker_init"
    by (simp add: system_new_def)
  from export_after_records [OF calls s0] obtain out where
    "encodeWav (wrk system_new) [[Num 1], [Num (- 1)]] (int (totalSampleCount [[Num 1], [Num (- 1)]])) = Some out"
    and "to_worker (exec system_new jitter_schedule) = [] \<longrightarrow>
        posted (exec system_new jitter_schedule)
          = [\<lparr>reply_command = ''exportWav'', data = Blob out mimeType\<rparr>] \<and>
        recBuffers (wrk (exec system_new jitter_schedule)) = [[Num 1], [Num (- 1)]] \<and>
        recLength (wrk (exec system_new jitter_schedule)) = int (totalSampleCount [[Num 1], [Num (- 1)]])"
    by blast
  then show ?thesis
    using jitter_schedule_run by (auto simp: w n)
qed

section \<open>Replies and pending requests\<close>

lemma calls_append: "calls (xs @ ys) = calls xs @ calls ys"
  by (induction xs rule: calls.induct) simp_all

lemma calls_export_callback [simp]: "calls (snd (export_callback k s b)) = []"
  by (simp add: export_callback_def Let_def calls_append split: option.split)

lemma callbacks_export_callback [simp]:
  "callbacks (fst (export_callback k s b)) = callbacks s"
  by (simp add: export_callback_def Let_def split: option.split)








section \<open>Stopping\<close>

text \<open>
  Claim C9, as amended. \<open>stopRecording\<close> signals no error in any state of the
  service, the initial one included: it registers one more pending callback and posts
  exactly one \<open>exportWav\<close> command to the worker, and it calls no callback and
  nothing on the audio nodes or the context.
\<close>

theorem stop_always_exports:
  "stopRecording k s = (s\<lparr>callbacks := callbacks s @ [k]\<rparr>,
      [PostMessage \<lparr>command = ''exportWav'', config = no_config, buffer = [], type = ''audio/wav''\<rparr>])
   \<and> to_worker (step sys (StopRecording k)) = to_worker sys @ [exportWav_message]
   \<and> calls (effects (step sys (StopRecording k))) = calls (effects sys)"
  by (simp add: stopRecording_def exportWav_message_def cmdExportWav_def mimeType_def
      service_does_def calls_append)

text \<open>On a service that has never recorded, \<open>stopRecording\<close> posts a command.\<close>

theorem stop_while_idle_counterexample:
  "snd (stopRecording 0 service_new) = [PostMessage exportWav_message]
   \<and> to_worker (step system_new (StopRecording 0)) = [exportWav_message]"
  by (simp add: stopRecording_def service_does_def system_new_def)

end
